theory Spec2Isabelle
  imports Main "HOL-Library.Monad_Syntax"
begin

unbundle bit_operations_syntax

section \<open>Page-table index extraction (pthelp.py)\<close>

text \<open>
  The module holds one function, \<^verbatim>\<open>get_addr_index(addr)\<close>:
  \<^verbatim>\<open>
  def get_addr_index(addr):
      p1 = (addr >> 12) & 0x1ff
      p2 = (addr >> 21) & 0x1ff
      p3 = (addr >> 30) & 0x1ff
      p4 = (addr >> 39) & 0x1ff
      return (p4, p3, p2, p1)
  \<close>
  Its argument is a Python integer, which has no width and may be negative: it is
  modelled as \<^typ>\<open>int\<close>. The result is a tuple of four integers, modelled as a
  product.
\<close>

subsection \<open>Python's integer operators\<close>

text \<open>
  \<^verbatim>\<open>x >> n\<close> on Python integers raises \<^verbatim>\<open>ValueError\<close> for a negative shift count and
  is otherwise the arithmetic shift, floor division by \<open>2 ^ n\<close>; the raise is the
  value \<open>None\<close>. \<^verbatim>\<open>x & y\<close> never raises on integers: it is the bitwise conjunction of
  the two's-complement patterns with the sign bit repeated without end, which is
  \<open>AND\<close> on \<^typ>\<open>int\<close>.
\<close>

definition py_rshift :: "int \<Rightarrow> int \<Rightarrow> int option" where
  "py_rshift x n = (if n < 0 then None else Some (drop_bit (nat n) x))"

definition py_and :: "int \<Rightarrow> int \<Rightarrow> int" where
  "py_and x y = x AND y"

subsection \<open>The function\<close>

type_synonym index_tuple = "int \<times> int \<times> int \<times> int"

definition get_addr_index :: "int \<Rightarrow> index_tuple option" where
  "get_addr_index addr = do {
     s1 \<leftarrow> py_rshift addr 12;
     let p1 = py_and s1 0x1ff;
     s2 \<leftarrow> py_rshift addr 21;
     let p2 = py_and s2 0x1ff;
     s3 \<leftarrow> py_rshift addr 30;
     let p3 = py_and s3 0x1ff;
     s4 \<leftarrow> py_rshift addr 39;
     let p4 = py_and s4 0x1ff;
     Some (p4, p3, p2, p1)
   }"

subsection \<open>The call, with the interpreter's frame written out\<close>

text \<open>
  What a call does to the program around it. Python decides at compile time where a
  name of a function body lives: the parameter \<^verbatim>\<open>addr\<close> and the names the body assigns,
  \<^verbatim>\<open>p1\<close> .. \<^verbatim>\<open>p4\<close>, are local (there is no \<^verbatim>\<open>global\<close> statement), so every read and
  every write of the body goes to the frame's local table. A frame holds that table and
  the module's globals, which outlive the call. Reading a local that is not bound
  raises \<^verbatim>\<open>UnboundLocalError\<close>, the value \<open>None\<close>.
\<close>

record 'v frame =
  f_locals :: "string \<rightharpoonup> int"
  f_globals :: "string \<rightharpoonup> 'v"

definition load_fast :: "string \<Rightarrow> 'v frame \<Rightarrow> int option" where
  "load_fast x s = f_locals s x"

definition store_fast :: "string \<Rightarrow> int \<Rightarrow> 'v frame \<Rightarrow> 'v frame" where
  "store_fast x v s = s\<lparr>f_locals := (f_locals s)(x \<mapsto> v)\<rparr>"

text \<open>The body, statement by statement, on the frame.\<close>

definition get_addr_index_body :: "'v frame \<Rightarrow> (index_tuple \<times> 'v frame) option" where
  "get_addr_index_body s0 = do {
     addr \<leftarrow> load_fast ''addr'' s0;
     t \<leftarrow> py_rshift addr 12;
     let s1 = store_fast ''p1'' (py_and t 0x1ff) s0;
     addr \<leftarrow> load_fast ''addr'' s1;
     t \<leftarrow> py_rshift addr 21;
     let s2 = store_fast ''p2'' (py_and t 0x1ff) s1;
     addr \<leftarrow> load_fast ''addr'' s2;
     t \<leftarrow> py_rshift addr 30;
     let s3 = store_fast ''p3'' (py_and t 0x1ff) s2;
     addr \<leftarrow> load_fast ''addr'' s3;
     t \<leftarrow> py_rshift addr 39;
     let s4 = store_fast ''p4'' (py_and t 0x1ff) s3;
     p4 \<leftarrow> load_fast ''p4'' s4;
     p3 \<leftarrow> load_fast ''p3'' s4;
     p2 \<leftarrow> load_fast ''p2'' s4;
     p1 \<leftarrow> load_fast ''p1'' s4;
     Some ((p4, p3, p2, p1), s4)
   }"

text \<open>
  A call made while the module's globals are \<open>g\<close>: a fresh frame binds the parameter,
  the body runs, and the caller gets the returned tuple and the globals as the body
  left them; the local table is dropped.
\<close>

definition get_addr_index_call :: "(string \<rightharpoonup> 'v) \<Rightarrow> int \<Rightarrow> (index_tuple \<times> (string \<rightharpoonup> 'v)) option" where
  "get_addr_index_call g addr = do {
     (r, s) \<leftarrow> get_addr_index_body \<lparr>f_locals = [''addr'' \<mapsto> addr], f_globals = g\<rparr>;
     Some (r, f_globals s)
   }"

section \<open>Bit-level facts about one field\<close>

lemma get_addr_index_unfold:
  "get_addr_index a =
     Some (drop_bit 39 a AND 511, drop_bit 30 a AND 511, drop_bit 21 a AND 511, drop_bit 12 a AND 511)"
  by (simp add: get_addr_index_def py_rshift_def py_and_def)

lemma and_511: "(x::int) AND 511 = take_bit 9 x"
  by (simp add: take_bit_eq_mask mask_eq_exp_minus_1)

lemma bit_field: "bit (drop_bit k (a::int) AND 511) i \<longleftrightarrow> i < 9 \<and> bit a (k + i)"
  by (simp add: and_511 bit_take_bit_iff bit_drop_bit_eq)

lemma field_div_mod: "drop_bit k (a::int) AND 511 = a div 2 ^ k mod 512"
  by (simp add: and_511 take_bit_eq_mod drop_bit_eq_div)

lemma field_range: "0 \<le> drop_bit k (a::int) AND 511 \<and> drop_bit k a AND 511 \<le> 511"
proof -
  have "take_bit 9 (drop_bit k a) < (2::int) ^ 9"
    by (rule take_bit_int_less_exp)
  then show ?thesis
    by (simp add: and_511)
qed

lemma field_eq_iff:
  "drop_bit k (a::int) AND 511 = drop_bit k b AND 511
     \<longleftrightarrow> (\<forall>n. k \<le> n \<and> n < k + 9 \<longrightarrow> bit a n = bit b n)"
proof
  assume eq: "drop_bit k a AND 511 = drop_bit k b AND 511"
  show "\<forall>n. k \<le> n \<and> n < k + 9 \<longrightarrow> bit a n = bit b n"
  proof (intro allI impI)
    fix n assume n: "k \<le> n \<and> n < k + 9"
    from eq have "bit (drop_bit k a AND 511) (n - k) = bit (drop_bit k b AND 511) (n - k)"
      by simp
    moreover from n have "n - k < 9" "k + (n - k) = n"
      by auto
    ultimately show "bit a n = bit b n"
      by (simp add: bit_field)
  qed
next
  assume bits: "\<forall>n. k \<le> n \<and> n < k + 9 \<longrightarrow> bit a n = bit b n"
  show "drop_bit k a AND 511 = drop_bit k b AND 511"
  proof (rule bit_eqI)
    fix i
    show "bit (drop_bit k a AND 511) i = bit (drop_bit k b AND 511) i"
      using bits by (auto simp add: bit_field)
  qed
qed

section \<open>Which input bits the result depends on\<close>

lemma get_addr_index_eq_iff:
  "get_addr_index a = get_addr_index b \<longleftrightarrow> (\<forall>n. 12 \<le> n \<and> n \<le> 47 \<longrightarrow> bit a n = bit b n)"
proof -
  let ?F = "\<lambda>k. \<forall>n. k \<le> n \<and> n < k + 9 \<longrightarrow> bit a n = bit b n"
  have "get_addr_index a = get_addr_index b \<longleftrightarrow> ?F 39 \<and> ?F 30 \<and> ?F 21 \<and> ?F 12"
    by (simp only: get_addr_index_unfold option.inject prod.inject field_eq_iff)
  also have "\<dots> \<longleftrightarrow> (\<forall>n. 12 \<le> n \<and> n \<le> 47 \<longrightarrow> bit a n = bit b n)"
  proof
    assume h: "?F 39 \<and> ?F 30 \<and> ?F 21 \<and> ?F 12"
    show "\<forall>n. 12 \<le> n \<and> n \<le> 47 \<longrightarrow> bit a n = bit b n"
    proof (intro allI impI)
      fix n :: nat assume n: "12 \<le> n \<and> n \<le> 47"
      then consider "n < 21" | "21 \<le> n" "n < 30" | "30 \<le> n" "n < 39" | "39 \<le> n"
        by linarith
      then show "bit a n = bit b n"
        using h n by cases simp_all
    qed
  next
    assume "\<forall>n. 12 \<le> n \<and> n \<le> 47 \<longrightarrow> bit a n = bit b n"
    then show "?F 39 \<and> ?F 30 \<and> ?F 21 \<and> ?F 12"
      by simp
  qed
  finally show ?thesis .
qed

lemma page_mask: "(0xFFFFFFFFF000::int) = push_bit 12 (mask 36)"
  by (simp add: mask_eq_exp_minus_1)

lemma bit_page_mask: "bit (0xFFFFFFFFF000::int) n \<longleftrightarrow> 12 \<le> n \<and> n \<le> 47"
  unfolding page_mask by (auto simp add: bit_push_bit_iff bit_mask_iff)

lemma and_page_mask_eq_iff:
  "(a::int) AND 0xFFFFFFFFF000 = b AND 0xFFFFFFFFF000
     \<longleftrightarrow> (\<forall>n. 12 \<le> n \<and> n \<le> 47 \<longrightarrow> bit a n = bit b n)"
  by (auto simp add: bit_eq_iff [of "a AND 0xFFFFFFFFF000"] bit_and_iff bit_page_mask)

lemma bit_flip: "bit ((a::int) XOR 2 ^ i) n \<longleftrightarrow> (bit a n \<noteq> (n = i))"
  by (auto simp add: bit_xor_iff bit_exp_iff)

lemma field_flip:
  "drop_bit k ((a::int) XOR 2 ^ i) AND 511 = drop_bit k a AND 511 \<longleftrightarrow> \<not> (k \<le> i \<and> i < k + 9)"
proof -
  have "drop_bit k (a XOR 2 ^ i) AND 511 = drop_bit k a AND 511 \<longleftrightarrow>
      (\<forall>n. k \<le> n \<and> n < k + 9 \<longrightarrow> n \<noteq> i)"
    unfolding field_eq_iff bit_flip by blast
  also have "\<dots> \<longleftrightarrow> \<not> (k \<le> i \<and> i < k + 9)"
    by blast
  finally show ?thesis .
qed

section \<open>Putting the fields back together\<close>

lemma take_bit_split9:
  "take_bit (9 + n) (x::int) = take_bit 9 x + push_bit 9 (take_bit n (drop_bit 9 x))"
  using bits_ident [of 9 "take_bit (9 + n) x"]
  by (simp add: drop_bit_take_bit)

lemma fields_sum:
  "push_bit 39 (drop_bit 39 a AND 511) + push_bit 30 (drop_bit 30 a AND 511)
     + push_bit 21 (drop_bit 21 a AND 511) + push_bit 12 (drop_bit 12 a AND 511)
   = (a::int) AND 0xFFFFFFFFF000"
proof -
  define x where "x = drop_bit 12 a"
  have "a AND 0xFFFFFFFFF000 = push_bit 12 (take_bit 36 x)"
    unfolding page_mask x_def
    by (rule bit_eqI)
      (auto simp add: bit_and_iff bit_push_bit_iff bit_mask_iff bit_take_bit_iff bit_drop_bit_eq)
  also have "take_bit 36 x = take_bit 9 x + push_bit 9 (take_bit 9 (drop_bit 9 x))
      + push_bit 18 (take_bit 9 (drop_bit 18 x)) + push_bit 27 (take_bit 9 (drop_bit 27 x))"
    using take_bit_split9 [of 27 x] take_bit_split9 [of 18 "drop_bit 9 x"]
      take_bit_split9 [of 9 "drop_bit 18 x"]
    by (simp add: push_bit_add)
  finally show ?thesis
    by (simp add: x_def and_511 push_bit_add)
qed

section \<open>Replacing the page offset, and reducing modulo a power of two\<close>

lemma low12_bits:
  assumes "0 \<le> k" "k \<le> 4095" "12 \<le> n"
  shows "bit (((a::int) AND NOT 0xFFF) OR k) n = bit a n"
proof -
  have m: "(0xFFF::int) = mask 12"
    by (simp add: mask_eq_exp_minus_1)
  have "take_bit 12 k = k"
    using assms by (simp add: take_bit_int_eq_self)
  then have "bit k n = bit (take_bit 12 k) n"
    by simp
  with assms have "\<not> bit k n"
    by (simp add: bit_take_bit_iff)
  then show ?thesis
    using assms by (simp add: m bit_or_iff bit_and_iff bit_not_iff bit_mask_iff)
qed

lemma get_addr_index_mod:
  assumes "48 \<le> w"
  shows "get_addr_index (a mod 2 ^ w) = get_addr_index a"
proof -
  have "\<forall>n. 12 \<le> n \<and> n \<le> 47 \<longrightarrow> bit (take_bit w a) n = bit a n"
    using assms by (simp add: bit_take_bit_iff)
  then show ?thesis
    by (simp only: get_addr_index_eq_iff take_bit_eq_mod [symmetric])
qed

lemma mod_fields:
  assumes "48 \<le> w"
  shows "get_addr_index a =
     Some ((a mod 2 ^ w) div 2 ^ 39 mod 2 ^ 9, (a mod 2 ^ w) div 2 ^ 30 mod 2 ^ 9,
           (a mod 2 ^ w) div 2 ^ 21 mod 2 ^ 9, (a mod 2 ^ w) div 2 ^ 12 mod 2 ^ 9)"
proof -
  have "get_addr_index a = get_addr_index (a mod 2 ^ w)"
    using assms by (simp only: get_addr_index_mod)
  also have "\<dots> = Some ((a mod 2 ^ w) div 2 ^ 39 mod 2 ^ 9, (a mod 2 ^ w) div 2 ^ 30 mod 2 ^ 9,
           (a mod 2 ^ w) div 2 ^ 21 mod 2 ^ 9, (a mod 2 ^ w) div 2 ^ 12 mod 2 ^ 9)"
    by (simp only: get_addr_index_unfold field_div_mod) simp
  finally show ?thesis .
qed

lemma neg_mod_pow:
  assumes "(a::int) < 0" "- (2 ^ w) \<le> a"
  shows "a mod 2 ^ w = 2 ^ w + a"
proof -
  have "(a + 2 ^ w) mod 2 ^ w = a + 2 ^ w"
    using assms by (intro mod_pos_pos_trivial) simp_all
  then show ?thesis
    by (simp add: add.commute)
qed

section \<open>The frame-level call against the function\<close>

lemma get_addr_index_call_eq:
  "get_addr_index_call g a = map_option (\<lambda>r. (r, g)) (get_addr_index a)"
  by (simp add: get_addr_index_call_def get_addr_index_body_def get_addr_index_def
      load_fast_def store_fast_def py_rshift_def)

section \<open>The properties of the specification\<close>

text \<open>
  Claim C1. For every address \<open>a\<close> the call returns, in this order, the tuple
  \<open>((a >> 39) & 0x1FF, (a >> 30) & 0x1FF, (a >> 21) & 0x1FF, (a >> 12) & 0x1FF)\<close>:
  level 4 first, level 1 last. Each component is the 9-bit field of \<open>a\<close> at that
  offset, that is \<open>a div 2 ^ k mod 2 ^ 9\<close>.
\<close>

theorem get_addr_index_fields:
  "get_addr_index a =
     Some (drop_bit 39 a AND 0x1FF, drop_bit 30 a AND 0x1FF, drop_bit 21 a AND 0x1FF, drop_bit 12 a AND 0x1FF)
   \<and> drop_bit 39 a AND 0x1FF = a div 2 ^ 39 mod 2 ^ 9
   \<and> drop_bit 30 a AND 0x1FF = a div 2 ^ 30 mod 2 ^ 9
   \<and> drop_bit 21 a AND 0x1FF = a div 2 ^ 21 mod 2 ^ 9
   \<and> drop_bit 12 a AND 0x1FF = a div 2 ^ 12 mod 2 ^ 9"
  by (simp add: get_addr_index_unfold field_div_mod)

text \<open>
  Claim C2. For every address the call returns a tuple, and each of its four fields
  lies between 0 and 511.
\<close>

theorem get_addr_index_range:
  "\<exists>p4 p3 p2 p1. get_addr_index a = Some (p4, p3, p2, p1)
     \<and> 0 \<le> p4 \<and> p4 \<le> 511 \<and> 0 \<le> p3 \<and> p3 \<le> 511
     \<and> 0 \<le> p2 \<and> p2 \<le> 511 \<and> 0 \<le> p1 \<and> p1 \<le> 511"
  using field_range [of 39 a] field_range [of 30 a] field_range [of 21 a] field_range [of 12 a]
  by (simp add: get_addr_index_unfold)

text \<open>
  Claim C3. The six addresses listed in the specification give the listed tuples.
\<close>

theorem get_addr_index_examples:
  "get_addr_index 0x0 = Some (0, 0, 0, 0)
   \<and> get_addr_index 0x1000 = Some (0, 0, 0, 1)
   \<and> get_addr_index 0x200000 = Some (0, 0, 1, 0)
   \<and> get_addr_index 0x40000000 = Some (0, 1, 0, 0)
   \<and> get_addr_index 0x8000000000 = Some (1, 0, 0, 0)
   \<and> get_addr_index 0xFFFFFFFFFFFF = Some (511, 511, 511, 511)"
  by (simp add: get_addr_index_def py_rshift_def py_and_def)

text \<open>
  Claim C4. Bits 0 to 11 and the bits above bit 47 have no influence on the result.
  First, for every address \<open>a\<close> and every \<open>k\<close> from 0 to 4095, the address
  \<open>(a & ~0xFFF) | k\<close>, which is \<open>a\<close> with its low twelve bits replaced by \<open>k\<close>, gives
  the result of \<open>a\<close>. Second, two addresses that agree on bits 12 to 47 give the same
  result, wherever else they differ; this covers two addresses that differ only in
  bits 48 and above.
\<close>

theorem get_addr_index_ignores_offset_and_high_bits:
  "(0 \<le> k \<and> k \<le> 4095 \<longrightarrow> get_addr_index ((a AND NOT 0xFFF) OR k) = get_addr_index a)
   \<and> ((\<forall>n. 12 \<le> n \<and> n \<le> 47 \<longrightarrow> bit a n = bit b n) \<longrightarrow> get_addr_index a = get_addr_index b)"
proof (intro conjI impI)
  assume "0 \<le> k \<and> k \<le> 4095"
  then have "\<forall>n. 12 \<le> n \<and> n \<le> 47 \<longrightarrow> bit ((a AND NOT 0xFFF) OR k) n = bit a n"
    using low12_bits [of k _ a] by blast
  then show "get_addr_index ((a AND NOT 0xFFF) OR k) = get_addr_index a"
    by (simp only: get_addr_index_eq_iff)
next
  assume "\<forall>n. 12 \<le> n \<and> n \<le> 47 \<longrightarrow> bit a n = bit b n"
  then show "get_addr_index a = get_addr_index b"
    by (simp only: get_addr_index_eq_iff)
qed

theorem get_addr_index_ignores_offset_and_high_bits_witness:
  "(0::int) \<le> 0xABC \<and> (0xABC::int) \<le> 4095
   \<and> get_addr_index ((0x1234567 AND NOT 0xFFF) OR 0xABC) = get_addr_index 0x1234567
   \<and> (0x7FFFFFFFF123::int) AND 0xFFFFFFFFF000 = 0xFFFF7FFFFFFFFFFF AND 0xFFFFFFFFF000
   \<and> get_addr_index 0x7FFFFFFFF123 = get_addr_index 0xFFFF7FFFFFFFFFFF"
proof -
  have k: "(0::int) \<le> 0xABC \<and> (0xABC::int) \<le> 4095"
    by simp
  have m: "(0x7FFFFFFFF123::int) AND 0xFFFFFFFFF000 = 0xFFFF7FFFFFFFFFFF AND 0xFFFFFFFFF000"
    by simp
  then have h: "\<forall>n. 12 \<le> n \<and> n \<le> 47 \<longrightarrow> bit (0x7FFFFFFFF123::int) n = bit (0xFFFF7FFFFFFFFFFF::int) n"
    by (simp only: and_page_mask_eq_iff)
  note low = get_addr_index_ignores_offset_and_high_bits [of "0xABC" "0x1234567" 0, THEN conjunct1]
  note high = get_addr_index_ignores_offset_and_high_bits [of 0 "0x7FFFFFFFF123" "0xFFFF7FFFFFFFFFFF", THEN conjunct2]
  from low k have r1: "get_addr_index ((0x1234567 AND NOT 0xFFF) OR 0xABC) = get_addr_index 0x1234567"
    by (rule mp)
  from high h have r2: "get_addr_index 0x7FFFFFFFF123 = get_addr_index 0xFFFF7FFFFFFFFFFF"
    by (rule mp)
  from k m r1 r2 show ?thesis
    by (intro conjI) (erule conjunct1, erule conjunct2, assumption+)
qed

text \<open>
  Claim C5. Let \<open>(p4, p3, p2, p1)\<close> be the result for \<open>a\<close> and \<open>(q4, q3, q2, q1)\<close> the
  result for \<open>a\<close> with bit \<open>i\<close> flipped (\<open>a XOR 2 ^ i\<close>). The level-1 field changes
  exactly when \<open>i\<close> is in [12, 20], the level-2 field exactly when \<open>i\<close> is in [21, 29],
  the level-3 field exactly when \<open>i\<close> is in [30, 38] and the level-4 field exactly when
  \<open>i\<close> is in [39, 47]. So the four ranges are disjoint, a flip outside bits 12 to 47
  changes no field, and for \<open>12 \<le> i \<le> 47\<close> exactly one field changes.
\<close>

theorem get_addr_index_flip_bit:
  "\<exists>p4 p3 p2 p1 q4 q3 q2 q1.
     get_addr_index a = Some (p4, p3, p2, p1)
     \<and> get_addr_index (a XOR 2 ^ i) = Some (q4, q3, q2, q1)
     \<and> (q1 \<noteq> p1 \<longleftrightarrow> 12 \<le> i \<and> i \<le> 20)
     \<and> (q2 \<noteq> p2 \<longleftrightarrow> 21 \<le> i \<and> i \<le> 29)
     \<and> (q3 \<noteq> p3 \<longleftrightarrow> 30 \<le> i \<and> i \<le> 38)
     \<and> (q4 \<noteq> p4 \<longleftrightarrow> 39 \<le> i \<and> i \<le> 47)
     \<and> (12 \<le> i \<and> i \<le> 47 \<longrightarrow>
           (q1 \<noteq> p1 \<and> q2 = p2 \<and> q3 = p3 \<and> q4 = p4)
         \<or> (q1 = p1 \<and> q2 \<noteq> p2 \<and> q3 = p3 \<and> q4 = p4)
         \<or> (q1 = p1 \<and> q2 = p2 \<and> q3 \<noteq> p3 \<and> q4 = p4)
         \<or> (q1 = p1 \<and> q2 = p2 \<and> q3 = p3 \<and> q4 \<noteq> p4))"
proof -
  define p where "p = (\<lambda>k. drop_bit k a AND 511)"
  define q where "q = (\<lambda>k. drop_bit k (a XOR 2 ^ i) AND 511)"
  have ga: "get_addr_index a = Some (p 39, p 30, p 21, p 12)"
    by (simp only: get_addr_index_unfold p_def)
  have gq: "get_addr_index (a XOR 2 ^ i) = Some (q 39, q 30, q 21, q 12)"
    by (simp only: get_addr_index_unfold q_def)
  have ch: "q k \<noteq> p k \<longleftrightarrow> k \<le> i \<and> i < k + 9" for k
    by (simp only: p_def q_def field_flip) simp
  have c1: "q 12 \<noteq> p 12 \<longleftrightarrow> 12 \<le> i \<and> i \<le> 20"
    and c2: "q 21 \<noteq> p 21 \<longleftrightarrow> 21 \<le> i \<and> i \<le> 29"
    and c3: "q 30 \<noteq> p 30 \<longleftrightarrow> 30 \<le> i \<and> i \<le> 38"
    and c4: "q 39 \<noteq> p 39 \<longleftrightarrow> 39 \<le> i \<and> i \<le> 47"
    unfolding ch by auto
  have one: "12 \<le> i \<and> i \<le> 47 \<longrightarrow>
           (q 12 \<noteq> p 12 \<and> q 21 = p 21 \<and> q 30 = p 30 \<and> q 39 = p 39)
         \<or> (q 12 = p 12 \<and> q 21 \<noteq> p 21 \<and> q 30 = p 30 \<and> q 39 = p 39)
         \<or> (q 12 = p 12 \<and> q 21 = p 21 \<and> q 30 \<noteq> p 30 \<and> q 39 = p 39)
         \<or> (q 12 = p 12 \<and> q 21 = p 21 \<and> q 30 = p 30 \<and> q 39 \<noteq> p 39)"
  proof
    assume "12 \<le> i \<and> i \<le> 47"
    then consider "12 \<le> i" "i \<le> 20" | "21 \<le> i" "i \<le> 29" | "30 \<le> i" "i \<le> 38" | "39 \<le> i" "i \<le> 47"
      by linarith
    then show "(q 12 \<noteq> p 12 \<and> q 21 = p 21 \<and> q 30 = p 30 \<and> q 39 = p 39)
         \<or> (q 12 = p 12 \<and> q 21 \<noteq> p 21 \<and> q 30 = p 30 \<and> q 39 = p 39)
         \<or> (q 12 = p 12 \<and> q 21 = p 21 \<and> q 30 \<noteq> p 30 \<and> q 39 = p 39)
         \<or> (q 12 = p 12 \<and> q 21 = p 21 \<and> q 30 = p 30 \<and> q 39 \<noteq> p 39)"
    proof cases
      case 1
      with c1 c2 c3 c4 have "q 12 \<noteq> p 12 \<and> q 21 = p 21 \<and> q 30 = p 30 \<and> q 39 = p 39"
        by simp
      then show ?thesis by (rule disjI1)
    next
      case 2
      with c1 c2 c3 c4 have "q 12 = p 12 \<and> q 21 \<noteq> p 21 \<and> q 30 = p 30 \<and> q 39 = p 39"
        by simp
      then show ?thesis by (intro disjI2 disjI1)
    next
      case 3
      with c1 c2 c3 c4 have "q 12 = p 12 \<and> q 21 = p 21 \<and> q 30 \<noteq> p 30 \<and> q 39 = p 39"
        by simp
      then show ?thesis by blast
    next
      case 4
      with c1 c2 c3 c4 have "q 12 = p 12 \<and> q 21 = p 21 \<and> q 30 = p 30 \<and> q 39 \<noteq> p 39"
        by simp
      then show ?thesis by blast
    qed
  qed
  from ga gq c1 c2 c3 c4 one show ?thesis
    by blast
qed

theorem get_addr_index_flip_bit_witness:
  "get_addr_index 0x1000 = Some (0, 0, 0, 1)
   \<and> get_addr_index (0x1000 XOR 2 ^ 21) = Some (0, 0, 1, 1)
   \<and> (12::nat) \<le> 21 \<and> (21::nat) \<le> 47"
proof -
  have a: "get_addr_index 0x1000 = Some (0, 0, 0, 1)"
    by (simp add: get_addr_index_unfold)
  have b: "get_addr_index (0x1000 XOR 2 ^ 21) = Some (0, 0, 1, 1)"
    by (simp add: get_addr_index_unfold)
  have r: "(12::nat) \<le> 21 \<and> (21::nat) \<le> 47"
    by simp
  obtain p4 p3 p2 p1 q4 q3 q2 q1 :: int where
    "get_addr_index 0x1000 = Some (p4, p3, p2, p1)"
    "get_addr_index (0x1000 XOR 2 ^ 21) = Some (q4, q3, q2, q1)"
    "(12::nat) \<le> 21 \<and> (21::nat) \<le> 47 \<longrightarrow>
           (q1 \<noteq> p1 \<and> q2 = p2 \<and> q3 = p3 \<and> q4 = p4)
         \<or> (q1 = p1 \<and> q2 \<noteq> p2 \<and> q3 = p3 \<and> q4 = p4)
         \<or> (q1 = p1 \<and> q2 = p2 \<and> q3 \<noteq> p3 \<and> q4 = p4)
         \<or> (q1 = p1 \<and> q2 = p2 \<and> q3 = p3 \<and> q4 \<noteq> p4)"
    using get_addr_index_flip_bit [of "0x1000" 21] by blast
  with a b r show ?thesis
    by blast
qed

text \<open>
  Claim C6. The function is total on the integers: for every integer \<open>a\<close>, with no
  precondition, the call returns a 4-tuple; the only raise of the operators it uses
  (a negative shift count) is never reached.
\<close>

theorem get_addr_index_total:
  "\<exists>p4 p3 p2 p1. get_addr_index a = Some (p4, p3, p2, p1)"
  by (simp add: get_addr_index_def py_rshift_def)

text \<open>
  Claim C7. A call made while the module's globals are \<open>g\<close> returns the tuple \<open>r\<close> that
  the function gives for the address, whatever \<open>g\<close> is, and hands the globals back
  unchanged: two calls with the same address return the same tuple in any two program
  states, and a call made after another call (on any address \<open>b\<close>) starts from the
  state the first one found and returns what it would have returned without it.
\<close>

theorem get_addr_index_deterministic:
  "\<exists>r. get_addr_index a = Some r
     \<and> get_addr_index_call g a = Some (r, g)
     \<and> get_addr_index_call g' a = Some (r, g')
     \<and> (\<exists>r' g1. get_addr_index_call g b = Some (r', g1)
           \<and> g1 = g \<and> get_addr_index_call g1 a = Some (r, g1))"
  by (simp add: get_addr_index_call_eq get_addr_index_unfold)

text \<open>
  Claim C8. The call on \<open>a\<close> returns a tuple \<open>(p4, p3, p2, p1)\<close> with
  \<open>(p4 << 39) + (p3 << 30) + (p2 << 21) + (p1 << 12) = a & 0xFFFFFFFFF000\<close>. Hence two
  addresses have the same result exactly when they agree on bits 12 to 47: the function
  separates addresses that differ in those bits. This holds for every integer \<open>a\<close>, in
  particular for every non-negative one.
\<close>

theorem get_addr_index_reconstruct:
  "(\<exists>p4 p3 p2 p1. get_addr_index a = Some (p4, p3, p2, p1)
      \<and> push_bit 39 p4 + push_bit 30 p3 + push_bit 21 p2 + push_bit 12 p1 = a AND 0xFFFFFFFFF000)
   \<and> (get_addr_index a = get_addr_index b \<longleftrightarrow> a AND 0xFFFFFFFFF000 = b AND 0xFFFFFFFFF000)"
proof (rule conjI)
  show "\<exists>p4 p3 p2 p1. get_addr_index a = Some (p4, p3, p2, p1)
      \<and> push_bit 39 p4 + push_bit 30 p3 + push_bit 21 p2 + push_bit 12 p1 = a AND 0xFFFFFFFFF000"
    using get_addr_index_unfold [of a] fields_sum [of a] by blast
next
  show "get_addr_index a = get_addr_index b \<longleftrightarrow> a AND 0xFFFFFFFFF000 = b AND 0xFFFFFFFFF000"
    by (simp only: get_addr_index_eq_iff and_page_mask_eq_iff)
qed

text \<open>
  Claim C9. For every negative integer \<open>a\<close> the call returns a tuple whose four fields
  lie between 0 and 511. The fields are read from the two's-complement pattern of \<open>a\<close>:
  for every width \<open>w\<close> of at least 48 bits, \<open>a mod 2 ^ w\<close> is the non-negative number
  below \<open>2 ^ w\<close> whose binary digits are the \<open>w\<close>-bit pattern of \<open>a\<close> (it is \<open>2 ^ w + a\<close>
  when \<open>- 2 ^ w \<le> a\<close>), and the result is the tuple of the 9-bit fields of that number
  at offsets 39, 30, 21 and 12, level 4 first. The call on \<open>-1\<close> returns
  \<open>(511, 511, 511, 511)\<close>, and the call on \<open>-4097\<close> returns \<open>(511, 511, 511, 510)\<close>.
\<close>

theorem get_addr_index_negative:
  "a < 0 \<Longrightarrow>
     (\<exists>p4 p3 p2 p1. get_addr_index a = Some (p4, p3, p2, p1)
        \<and> 0 \<le> p4 \<and> p4 \<le> 511 \<and> 0 \<le> p3 \<and> p3 \<le> 511
        \<and> 0 \<le> p2 \<and> p2 \<le> 511 \<and> 0 \<le> p1 \<and> p1 \<le> 511)
     \<and> (48 \<le> w \<longrightarrow>
           get_addr_index a =
             Some ((a mod 2 ^ w) div 2 ^ 39 mod 2 ^ 9, (a mod 2 ^ w) div 2 ^ 30 mod 2 ^ 9,
                   (a mod 2 ^ w) div 2 ^ 21 mod 2 ^ 9, (a mod 2 ^ w) div 2 ^ 12 mod 2 ^ 9)
           \<and> get_addr_index a = get_addr_index (a mod 2 ^ w)
           \<and> 0 \<le> a mod 2 ^ w \<and> a mod 2 ^ w < 2 ^ w
           \<and> (- (2 ^ w) \<le> a \<longrightarrow> a mod 2 ^ w = 2 ^ w + a))
     \<and> get_addr_index (- 1) = Some (511, 511, 511, 511)
     \<and> get_addr_index (- 4097) = Some (511, 511, 511, 510)"
proof (intro conjI impI)
  show "\<exists>p4 p3 p2 p1. get_addr_index a = Some (p4, p3, p2, p1)
        \<and> 0 \<le> p4 \<and> p4 \<le> 511 \<and> 0 \<le> p3 \<and> p3 \<le> 511
        \<and> 0 \<le> p2 \<and> p2 \<le> 511 \<and> 0 \<le> p1 \<and> p1 \<le> 511"
    using field_range [of 39 a] field_range [of 30 a] field_range [of 21 a] field_range [of 12 a]
    by (simp add: get_addr_index_unfold)
next
  assume "48 \<le> w"
  then show "get_addr_index a =
             Some ((a mod 2 ^ w) div 2 ^ 39 mod 2 ^ 9, (a mod 2 ^ w) div 2 ^ 30 mod 2 ^ 9,
                   (a mod 2 ^ w) div 2 ^ 21 mod 2 ^ 9, (a mod 2 ^ w) div 2 ^ 12 mod 2 ^ 9)"
    by (rule mod_fields)
next
  assume "48 \<le> w"
  then show "get_addr_index a = get_addr_index (a mod 2 ^ w)"
    by (simp only: get_addr_index_mod)
next
  show "0 \<le> a mod 2 ^ w"
    by simp
next
  show "a mod 2 ^ w < 2 ^ w"
    by simp
next
  assume "a < 0" "- (2 ^ w) \<le> a"
  then show "a mod 2 ^ w = 2 ^ w + a"
    by (rule neg_mod_pow)
next
  show "get_addr_index (- 1) = Some (511, 511, 511, 511)"
    by (simp add: get_addr_index_def py_rshift_def py_and_def)
next
  show "get_addr_index (- 4097) = Some (511, 511, 511, 510)"
    by (simp add: get_addr_index_def py_rshift_def py_and_def)
qed

theorem get_addr_index_negative_witness:
  "(- 4097 :: int) < 0 \<and> (48::nat) \<le> 64 \<and> - (2 ^ 64) \<le> (- 4097 :: int)
   \<and> (- 4097 :: int) mod 2 ^ 64 = 0xFFFFFFFFFFFFEFFF
   \<and> get_addr_index (- 4097) = Some (511, 511, 511, 510)
   \<and> get_addr_index (- 4097) = get_addr_index 0xFFFFFFFFFFFFEFFF
   \<and> get_addr_index (- 4097) =
       Some (0xFFFFFFFFFFFFEFFF div 2 ^ 39 mod 2 ^ 9, 0xFFFFFFFFFFFFEFFF div 2 ^ 30 mod 2 ^ 9,
             0xFFFFFFFFFFFFEFFF div 2 ^ 21 mod 2 ^ 9, 0xFFFFFFFFFFFFEFFF div 2 ^ 12 mod 2 ^ 9)"
proof -
  have neg: "(- 4097 :: int) < 0"
    by simp
  have w: "(48::nat) \<le> 64"
    by simp
  have lo: "- (2 ^ 64) \<le> (- 4097 :: int)"
    by simp
  note t = get_addr_index_negative [OF neg, of 64]
  from t w have fields: "get_addr_index (- 4097) =
       Some ((- 4097) mod 2 ^ 64 div 2 ^ 39 mod 2 ^ 9, (- 4097) mod 2 ^ 64 div 2 ^ 30 mod 2 ^ 9,
             (- 4097) mod 2 ^ 64 div 2 ^ 21 mod 2 ^ 9, (- 4097) mod 2 ^ 64 div 2 ^ 12 mod 2 ^ 9)"
    and same: "get_addr_index (- 4097) = get_addr_index ((- 4097) mod 2 ^ 64)"
    and enc: "(- 4097 :: int) mod 2 ^ 64 = 2 ^ 64 + (- 4097)"
    using lo by blast+
  have m: "(2::int) ^ 64 + (- 4097) = 0xFFFFFFFFFFFFEFFF"
    by simp
  have v: "get_addr_index (- 4097) = Some (511, 511, 511, 510)"
    using fields unfolding enc m by simp
  show ?thesis
    using neg w lo fields same v unfolding enc m by (intro conjI) simp_all
qed

end
